theory Spec2Isabelle
  imports Main "HOL-Library.AList"
begin

section \<open>Python values and library functions used by ha\_ctl\<close>

text \<open>
  Strings are lists of ASCII characters. Exceptions are values: a function that can raise
  returns \<open>exn + 'a\<close>, with \<open>Inl\<close> the exception raised.
\<close>

datatype denial = Blocked | NotInAllowlist

datatype exn =
    PermissionError denial string
  | CriticalActionError string string
  | IndexError
  | KeyError
  | ValueError
  | TypeError
  | AttributeError
  | ApiError
  | MarkupError
  | TyperExit nat

text \<open>\<open>s.split(sep, 1)\<close> for a one-character separator: at most one split, at the first
  occurrence; a string without the separator comes back whole, as the only element.\<close>

definition split1 :: "char \<Rightarrow> string \<Rightarrow> string list" where
  "split1 sep s =
     (if sep \<in> set s
      then [takeWhile (\<lambda>c. c \<noteq> sep) s, tl (dropWhile (\<lambda>c. c \<noteq> sep) s)]
      else [s])"

text \<open>\<open>xs[0]\<close>: raises IndexError on the empty list.\<close>

definition item0 :: "'a list \<Rightarrow> exn + 'a" where
  "item0 xs = (case xs of [] \<Rightarrow> Inl IndexError | x # _ \<Rightarrow> Inr x)"

text \<open>\<open>str.lower()\<close> on ASCII text.\<close>

definition lower_char :: "char \<Rightarrow> char" where
  "lower_char c =
     (let n = (of_char c :: nat) in if 65 \<le> n \<and> n \<le> 90 then char_of (n + 32) else c)"

definition lower :: "string \<Rightarrow> string" where
  "lower s = map lower_char s"

text \<open>The characters that \<open>int()\<close> and \<open>float()\<close> skip at both ends of an ASCII string:
  tab, line feed, vertical tab, form feed, carriage return and the space. (The separators
  0x1C to 0x1F, which \<open>str.strip()\<close> removes, are not among them: the character 0x1C followed by \<open>5\<close> is not an integer.)\<close>

definition isspace :: "char \<Rightarrow> bool" where
  "isspace c = (let n = (of_char c :: nat) in (9 \<le> n \<and> n \<le> 13) \<or> n = 32)"

definition skip_spaces :: "string \<Rightarrow> string" where
  "skip_spaces s = rev (dropWhile isspace (rev (dropWhile isspace s)))"

definition isdigit :: "char \<Rightarrow> bool" where
  "isdigit c = (let n = (of_char c :: nat) in 48 \<le> n \<and> n \<le> 57)"

text \<open>The grammar \<open>digitpart ::= digit (["_"] digit)*\<close> of Python's numeric literals:
  single underscores, between digits only.\<close>

fun digitpart :: "string \<Rightarrow> bool" where
  "digitpart [] = False"
| "digitpart [c] = isdigit c"
| "digitpart (c # d # cs) =
     (isdigit c \<and> (if d = CHR ''_'' then digitpart cs else digitpart (d # cs)))"

definition decimal :: "string \<Rightarrow> nat" where
  "decimal s =
     foldl (\<lambda>n c. 10 * n + (of_char c - 48)) 0 (filter (\<lambda>c. c \<noteq> CHR ''_'') s)"

text \<open>\<open>int(s)\<close> in base ten; \<open>None\<close> is ValueError. (The limit on the number of digits
  that recent interpreters impose on the conversion is not modelled.)\<close>

definition py_int :: "string \<Rightarrow> int option" where
  "py_int s =
     (case skip_spaces s of
        [] \<Rightarrow> None
      | c # cs \<Rightarrow>
          if c = CHR ''-'' then (if digitpart cs then Some (- int (decimal cs)) else None)
          else if c = CHR ''+'' then (if digitpart cs then Some (int (decimal cs)) else None)
          else if digitpart (c # cs) then Some (int (decimal (c # cs))) else None)"

text \<open>
  \<open>float(s)\<close>. The binary value of a decimal literal is outside the model: a float is kept as
  the literal that denotes it. What is modelled is which strings \<open>float()\<close> accepts:
  \<open>[sign] (floatnumber | "inf" | "infinity" | "nan")\<close>, letters in either case, with
  \<open>floatnumber ::= ([digitpart] "." digitpart | digitpart ["."]) [("e"|"E") [sign] digitpart]\<close>.
\<close>

datatype pyfloat = FloatLit string

definition unsigned :: "string \<Rightarrow> string" where
  "unsigned s =
     (case s of [] \<Rightarrow> [] | c # cs \<Rightarrow> if c = CHR ''+'' \<or> c = CHR ''-'' then cs else c # cs)"

definition exponent_ok :: "string \<Rightarrow> bool" where
  "exponent_ok s =
     (case s of
        [] \<Rightarrow> True
      | c # cs \<Rightarrow> (c = CHR ''e'' \<or> c = CHR ''E'') \<and> digitpart (unsigned cs))"

definition isdigit_or_us :: "char \<Rightarrow> bool" where
  "isdigit_or_us c = (isdigit c \<or> c = CHR ''_'')"

definition floatnumber :: "string \<Rightarrow> bool" where
  "floatnumber s =
     (let ip = takeWhile isdigit_or_us s; r = dropWhile isdigit_or_us s in
      case r of
        [] \<Rightarrow> digitpart ip
      | c # cs \<Rightarrow>
          if c = CHR ''.''
          then (let fp = takeWhile isdigit_or_us cs; r' = dropWhile isdigit_or_us cs in
                (ip = [] \<or> digitpart ip) \<and> (fp = [] \<or> digitpart fp) \<and>
                (ip \<noteq> [] \<or> fp \<noteq> []) \<and> exponent_ok r')
          else digitpart ip \<and> exponent_ok r)"

definition py_float :: "string \<Rightarrow> pyfloat option" where
  "py_float s =
     (let t = skip_spaces s; u = unsigned t in
      if lower u \<in> {''inf'', ''infinity'', ''nan''} \<or> floatnumber u
      then Some (FloatLit t) else None)"

text \<open>Values of a service payload: what the typing of a key=value token or the decoding of a
  JSON document can produce.\<close>

datatype pyval =
    VNone
  | VBool bool
  | VInt int
  | VFloat pyfloat
  | VStr string
  | VList "pyval list"
  | VDict "(string \<times> pyval) list"

text \<open>A Python \<open>dict\<close> with string keys is an association list in insertion order;
  \<open>d[k] = v\<close> is \<open>AList.update k v d\<close> (an existing key keeps its place), \<open>k in d\<close> is
  \<open>map_of d k \<noteq> None\<close>.\<close>

type_synonym pydict = "(string \<times> pyval) list"

section \<open>config.py: the safety policy\<close>

record SafetyConfig =
  level :: int
  critical_domains :: "string list"
  blocked_entities :: "string list"
  allowed_entities :: "string list"

text \<open>\<open>SafetyConfig()\<close>: the field defaults.\<close>

definition SafetyConfig_default :: SafetyConfig where
  "SafetyConfig_default =
     \<lparr>level = 3, critical_domains = [''lock'', ''alarm_control_panel'', ''cover''],
      blocked_entities = [], allowed_entities = []\<rparr>"

section \<open>safety.py\<close>

text \<open>
  \<open>fnmatch.fnmatch\<close> belongs to Python's standard library, not to this program: the policy
  engine is modelled over any matcher \<open>fnmatch name pattern\<close>, passed as first argument.
\<close>

type_synonym matcher = "string \<Rightarrow> string \<Rightarrow> bool"

primrec is_blocked :: "matcher \<Rightarrow> string \<Rightarrow> string list \<Rightarrow> bool" where
  "is_blocked fnmatch entity_id [] = False"
| "is_blocked fnmatch entity_id (pattern # blocked_list) =
     (if fnmatch entity_id pattern then True else is_blocked fnmatch entity_id blocked_list)"

primrec allowed_loop :: "matcher \<Rightarrow> string \<Rightarrow> string list \<Rightarrow> bool" where
  "allowed_loop fnmatch entity_id [] = False"
| "allowed_loop fnmatch entity_id (pattern # allowed_list) =
     (if fnmatch entity_id pattern then True else allowed_loop fnmatch entity_id allowed_list)"

definition is_allowed :: "matcher \<Rightarrow> string \<Rightarrow> string list \<Rightarrow> bool" where
  "is_allowed fnmatch entity_id allowed_list =
     (if allowed_list = [] then True else allowed_loop fnmatch entity_id allowed_list)"

definition get_domain :: "string \<Rightarrow> exn + string" where
  "get_domain entity_id = item0 (split1 CHR ''.'' entity_id)"

text \<open>Lines 59 to 77 of \<open>check_action\<close>: the domain, the critical-domain rule of level 3 and
  the write rule of level 2. A forced critical action falls through to the write rule.\<close>

definition confirmation_rules :: "string \<Rightarrow> string \<Rightarrow> SafetyConfig \<Rightarrow> bool \<Rightarrow> exn + unit" where
  "confirmation_rules entity_id action config force =
     (case item0 (split1 CHR ''.'' entity_id) of
        Inl e \<Rightarrow> Inl e
      | Inr domain \<Rightarrow>
          if level config \<ge> 3 \<and> domain \<in> set (critical_domains config) \<and> \<not> force
          then Inl (CriticalActionError entity_id action)
          else if level config \<ge> 2
                  \<and> action \<in> set [''turn_on'', ''turn_off'', ''toggle'', ''set'']
                  \<and> \<not> force
          then Inl (CriticalActionError entity_id action)
          else Inr ())"

text \<open>\<open>check_action\<close>: \<open>Inr ()\<close> is the normal return (the action is allowed),
  \<open>Inl (PermissionError _ _)\<close> a denial, \<open>Inl (CriticalActionError _ _)\<close> the demand for a
  confirmation.\<close>

definition check_action ::
  "matcher \<Rightarrow> string \<Rightarrow> string \<Rightarrow> SafetyConfig option \<Rightarrow> bool \<Rightarrow> exn + unit" where
  "check_action fnmatch entity_id action config force =
     (let config = (case config of None \<Rightarrow> SafetyConfig_default | Some c \<Rightarrow> c) in
      if level config = 0 then Inr ()
      else if is_blocked fnmatch entity_id (blocked_entities config)
      then Inl (PermissionError Blocked entity_id)
      else if allowed_entities config \<noteq> []
              \<and> \<not> is_allowed fnmatch entity_id (allowed_entities config)
      then Inl (PermissionError NotInAllowlist entity_id)
      else confirmation_rules entity_id action config force)"

text \<open>A matcher to run the policy on: \<open>*\<close> matches any run of characters, \<open>?\<close> any one
  character, every other character itself. This is what \<open>fnmatch.fnmatch\<close> does on a POSIX
  system for a pattern without \<open>[\<close>.\<close>

fun wildcard_match :: "string \<Rightarrow> string \<Rightarrow> bool" where
  "wildcard_match [] [] = True"
| "wildcard_match (c # cs) [] = False"
| "wildcard_match [] (p # ps) = (p = CHR ''*'' \<and> wildcard_match [] ps)"
| "wildcard_match (c # cs) (p # ps) =
     (if p = CHR ''*'' then wildcard_match (c # cs) ps \<or> wildcard_match cs (p # ps)
      else (p = CHR ''?'' \<or> p = c) \<and> wildcard_match cs ps)"

section \<open>logger.py, client.py and the console: what a command leaves behind\<close>

text \<open>
  The effects of a command are the records it hands to \<open>log_action\<close>, the requests it sends
  to the hub and the texts it prints on the console, each in order. The diagnostic lines that
  \<open>check_action\<close> and the client write through their module loggers are not modelled.
\<close>

record AuditRecord =
  audit_entity :: string
  audit_action :: string
  forced :: bool
  allowed :: bool

datatype request = POST string pyval

text \<open>
  The texts of the \<open>console.print\<close> calls of the commands. A constructor stands for the
  text of one call, its arguments for the values the call interpolates:
  \<^item> \<open>ExceptionText e\<close> is \<open>str(e)\<close>, the message of the CriticalActionError or
    PermissionError \<open>e\<close>, which names its entity (and action);
  \<^item> \<open>ApiErrorText\<close> is \<open>[red]Error:[/red]\<close> followed by the message of the ApiError;
  \<^item> \<open>InvalidJsonText\<close> is \<open>[red]Error:[/red] Invalid JSON:\<close> followed by the message
    of the decoder;
  \<^item> \<open>ErrorText s\<close> is \<open>[red]Error:[/red]\<close> followed by \<open>s\<close>;
  \<^item> \<open>ExpectedFormatText s\<close> is \<open>[yellow]Expected format:[/yellow]\<close> followed by \<open>s\<close>;
  \<^item> \<open>SuccessText s\<close> is the green check mark \<open>[green]...[/green]\<close> followed by \<open>s\<close>.
\<close>

datatype message =
    ExceptionText exn
  | ApiErrorText
  | InvalidJsonText
  | ErrorText string
  | ExpectedFormatText string
  | SuccessText string

record proc =
  requests :: "request list"
  audit :: "AuditRecord list"
  console :: "message list"

definition start :: proc where
  "start = \<lparr>requests = [], audit = [], console = []\<rparr>"

definition log_action :: "string \<Rightarrow> string \<Rightarrow> bool \<Rightarrow> bool \<Rightarrow> proc \<Rightarrow> proc" where
  "log_action entity_id action f a st =
     st\<lparr>audit := audit st @
        [\<lparr>audit_entity = entity_id, audit_action = action, forced = f, allowed = a\<rparr>]\<rparr>"

text \<open>
  \<open>console.print\<close> reads its text as markup and raises MarkupError on a closing tag that
  closes nothing, which a text gets from the values interpolated into it (an entity id such
  as \<open>switch.[/b]\<close>). The markup parser belongs to the rich library, not to this program:
  it is a parameter, \<open>renders text\<close> telling whether \<open>console.print\<close> returns for the text
  (\<open>True\<close>) or raises MarkupError.
\<close>

type_synonym renderer = "message \<Rightarrow> bool"

definition console_print :: "renderer \<Rightarrow> message \<Rightarrow> proc \<Rightarrow> proc \<times> (exn + unit)" where
  "console_print renders text st =
     (if renders text then (st\<lparr>console := console st @ [text]\<rparr>, Inr ())
      else (st, Inl MarkupError))"

text \<open>An error exit: the texts are printed in order, then \<open>typer.Exit(1)\<close> is raised.\<close>

fun complain :: "renderer \<Rightarrow> message list \<Rightarrow> proc \<Rightarrow> proc \<times> (exn + 'a)" where
  "complain renders [] st = (st, Inl (TyperExit 1))"
| "complain renders (text # texts) st =
     (case console_print renders text st of
        (st1, Inl e) \<Rightarrow> (st1, Inl e)
      | (st1, Inr _) \<Rightarrow> complain renders texts st1)"

text \<open>Truth value of a payload (\<open>data or {}\<close>). A top-level number never gets this far in
  \<open>call\<close>, so numbers are given the truth value of a non-zero one.\<close>

definition truthy :: "pyval \<Rightarrow> bool" where
  "truthy v =
     (case v of VNone \<Rightarrow> False | VBool b \<Rightarrow> b | VInt n \<Rightarrow> n \<noteq> 0 | VFloat _ \<Rightarrow> True
      | VStr s \<Rightarrow> s \<noteq> [] | VList xs \<Rightarrow> xs \<noteq> [] | VDict d \<Rightarrow> d \<noteq> [])"

text \<open>The hub is a parameter: \<open>hub req\<close> tells whether \<open>_make_request\<close> returns for the
  request (\<open>True\<close>) or raises ApiError.\<close>

type_synonym hub = "request \<Rightarrow> bool"

definition call_service ::
  "hub \<Rightarrow> string \<Rightarrow> string \<Rightarrow> pyval option \<Rightarrow> proc \<Rightarrow> proc \<times> (exn + unit)" where
  "call_service hub domain service data st =
     (let endpoint = ''/api/services/'' @ domain @ ''/'' @ service;
          service_data = (case data of None \<Rightarrow> VDict []
                          | Some d \<Rightarrow> if truthy d then d else VDict []);
          req = POST endpoint service_data;
          st' = st\<lparr>requests := requests st @ [req]\<rparr>
      in (st', if hub req then Inr () else Inl ApiError))"

definition call_service_for_entity ::
  "hub \<Rightarrow> string \<Rightarrow> string \<Rightarrow> pydict option \<Rightarrow> proc \<Rightarrow> proc \<times> (exn + unit)" where
  "call_service_for_entity hub entity_id service data st =
     (case item0 (split1 CHR ''.'' entity_id) of
        Inl e \<Rightarrow> (st, Inl e)
      | Inr domain \<Rightarrow>
          let service_data = (case data of None \<Rightarrow> [] | Some d \<Rightarrow> d);
              service_data = AList.update ''entity_id'' (VStr entity_id) service_data
          in call_service hub domain service (Some (VDict service_data)) st)"

section \<open>cli.py: the commands\<close>

text \<open>
  A command runs with a loaded configuration (\<open>get_config()\<close> and \<open>get_client()\<close> have
  returned): the matcher, the safety policy, the hub and the console renderer make up its
  world. It ends by returning, by \<open>typer.Exit\<close> with a code, or with an exception no clause
  catches.
\<close>

record world =
  matcher_of :: matcher
  safety :: SafetyConfig
  hub_of :: hub
  renders :: renderer

datatype status = Returned | Exited nat | Uncaught exn

text \<open>The end of an \<open>except\<close> clause: \<open>typer.Exit(1)\<close>, unless the clause raised.\<close>

definition exit1 :: "proc \<times> (exn + unit) \<Rightarrow> proc \<times> status" where
  "exit1 r = (case r of (st, Inl e) \<Rightarrow> (st, Uncaught e) | (st, Inr _) \<Rightarrow> (st, Exited 1))"

text \<open>
  The \<open>except\<close> clauses shared by \<open>on\<close>, \<open>off\<close>, \<open>toggle\<close> and \<open>set\<close>. Each clause prints
  first; only the PermissionError clause then calls \<open>log_action\<close>. An exception raised by the
  print of a clause leaves the command uncaught, before the \<open>log_action\<close> of that clause.
\<close>

definition except_clauses ::
  "world \<Rightarrow> string \<Rightarrow> string \<Rightarrow> bool \<Rightarrow> proc \<times> (exn + unit) \<Rightarrow> proc \<times> status" where
  "except_clauses w entity_id action force r =
     (case r of
        (st, Inr _) \<Rightarrow> (st, Returned)
      | (st, Inl (CriticalActionError x y)) \<Rightarrow>
          exit1 (console_print (renders w) (ExceptionText (CriticalActionError x y)) st)
      | (st, Inl (PermissionError d x)) \<Rightarrow>
          (case console_print (renders w) (ExceptionText (PermissionError d x)) st of
             (st1, Inl e) \<Rightarrow> (st1, Uncaught e)
           | (st1, Inr _) \<Rightarrow> (log_action entity_id action force False st1, Exited 1))
      | (st, Inl ApiError) \<Rightarrow> exit1 (console_print (renders w) ApiErrorText st)
      | (st, Inl (TyperExit n)) \<Rightarrow> (st, Exited n)
      | (st, Inl e) \<Rightarrow> (st, Uncaught e))"

text \<open>The \<open>try\<close> body of \<open>on\<close>, \<open>off\<close> and \<open>toggle\<close>, which differ in the service name and
  in the words of the success text only: safety check, service call, audit record, success
  text.\<close>

definition switch_body ::
  "world \<Rightarrow> string \<Rightarrow> string \<Rightarrow> string \<Rightarrow> bool \<Rightarrow> proc \<Rightarrow> proc \<times> (exn + unit)" where
  "switch_body w service words entity_id force st =
     (case check_action (matcher_of w) entity_id service (Some (safety w)) force of
        Inl e \<Rightarrow> (st, Inl e)
      | Inr _ \<Rightarrow>
          (case call_service_for_entity (hub_of w) entity_id service None st of
             (st1, Inl e) \<Rightarrow> (st1, Inl e)
           | (st1, Inr _) \<Rightarrow>
               console_print (renders w) (SuccessText (entity_id @ words))
                 (log_action entity_id service force True st1)))"

definition on :: "world \<Rightarrow> string \<Rightarrow> bool \<Rightarrow> proc \<times> status" where
  "on w entity_id force =
     except_clauses w entity_id ''turn_on'' force
       (switch_body w ''turn_on'' '' turned on'' entity_id force start)"

definition off :: "world \<Rightarrow> string \<Rightarrow> bool \<Rightarrow> proc \<times> status" where
  "off w entity_id force =
     except_clauses w entity_id ''turn_off'' force
       (switch_body w ''turn_off'' '' turned off'' entity_id force start)"

definition toggle :: "world \<Rightarrow> string \<Rightarrow> bool \<Rightarrow> proc \<times> status" where
  "toggle w entity_id force =
     except_clauses w entity_id ''toggle'' force
       (switch_body w ''toggle'' '' toggled'' entity_id force start)"

text \<open>The typing of a value in \<open>set\<close> (lines 311 to 326).\<close>

definition set_parsed_value :: "string \<Rightarrow> pyval" where
  "set_parsed_value v =
     (if lower v \<in> {''true'', ''yes'', ''on''} then VBool True
      else if lower v \<in> {''false'', ''no'', ''off''} then VBool False
      else case py_int v of
             Some n \<Rightarrow> VInt n
           | None \<Rightarrow> (case py_float v of Some x \<Rightarrow> VFloat x | None \<Rightarrow> VStr v))"

text \<open>The typing of a value in \<open>call\<close> (lines 398 to 410).\<close>

definition call_parsed_value :: "string \<Rightarrow> pyval" where
  "call_parsed_value v =
     (if lower v \<in> {''true'', ''yes''} then VBool True
      else if lower v \<in> {''false'', ''no''} then VBool False
      else case py_int v of
             Some n \<Rightarrow> VInt n
           | None \<Rightarrow> (case py_float v of Some x \<Rightarrow> VFloat x | None \<Rightarrow> VStr v))"

text \<open>What each command prints about a token without \<open>=\<close> before it exits.\<close>

definition set_complaint :: "string \<Rightarrow> message list" where
  "set_complaint attr_str =
     [ErrorText (''Invalid attribute format: '' @ attr_str), ExpectedFormatText ''key=value'']"

definition call_complaint :: "string \<Rightarrow> message list" where
  "call_complaint param_str = [ErrorText (''Invalid parameter format: '' @ param_str)]"

text \<open>The loop over the key=value tokens, with the complaint and the typing of the command as
  parameters: at the first token without \<open>=\<close> the command complains and exits with code 1.\<close>

fun parse_tokens ::
  "renderer \<Rightarrow> (string \<Rightarrow> message list) \<Rightarrow> (string \<Rightarrow> pyval) \<Rightarrow> pydict \<Rightarrow> string list
     \<Rightarrow> proc \<Rightarrow> proc \<times> (exn + pydict)" where
  "parse_tokens r complaint typing data [] st = (st, Inr data)"
| "parse_tokens r complaint typing data (token # tokens) st =
     (if CHR ''='' \<notin> set token then complain r (complaint token) st
      else case split1 CHR ''='' token of
             [key, v] \<Rightarrow>
               parse_tokens r complaint typing (AList.update key (typing v) data) tokens st
           | _ \<Rightarrow> (st, Inl ValueError))"

definition set_body ::
  "world \<Rightarrow> string \<Rightarrow> string list \<Rightarrow> bool \<Rightarrow> proc \<Rightarrow> proc \<times> (exn + unit)" where
  "set_body w entity_id attributes force st =
     (case parse_tokens (renders w) set_complaint set_parsed_value
             [(''entity_id'', VStr entity_id)] attributes st of
        (st0, Inl e) \<Rightarrow> (st0, Inl e)
      | (st0, Inr data) \<Rightarrow>
          (case check_action (matcher_of w) entity_id ''set'' (Some (safety w)) force of
             Inl e \<Rightarrow> (st0, Inl e)
           | Inr _ \<Rightarrow>
               (case item0 (split1 CHR ''.'' entity_id) of
                  Inl e \<Rightarrow> (st0, Inl e)
                | Inr domain \<Rightarrow>
                    (case call_service (hub_of w) domain ''turn_on'' (Some (VDict data)) st0 of
                       (st1, Inl e) \<Rightarrow> (st1, Inl e)
                     | (st1, Inr _) \<Rightarrow>
                         console_print (renders w) (SuccessText (entity_id @ '' updated''))
                           (log_action entity_id ''set'' force True st1)))))"

definition set_cmd :: "world \<Rightarrow> string \<Rightarrow> string list \<Rightarrow> bool \<Rightarrow> proc \<times> status" where
  "set_cmd w entity_id attributes force =
     except_clauses w entity_id ''set'' force (set_body w entity_id attributes force start)"

text \<open>The \<open>--json\<close> option of \<open>call\<close>: absent or empty, a text that \<open>json.loads\<close> rejects,
  or a text that it decodes to a value.\<close>

datatype json_option = NoJson | BadJson | Json pyval

text \<open>\<open>"entity_id" in data\<close>: a key of a dict, an element of a list, a substring of a str;
  TypeError on a value that is not a container.\<close>

fun is_substring :: "string \<Rightarrow> string \<Rightarrow> bool" where
  "is_substring p [] = (p = [])"
| "is_substring p (c # cs) = (take (length p) (c # cs) = p \<or> is_substring p cs)"

definition has_entity_id :: "pyval \<Rightarrow> exn + bool" where
  "has_entity_id data =
     (case data of
        VDict d \<Rightarrow> Inr (map_of d ''entity_id'' \<noteq> None)
      | VList xs \<Rightarrow> Inr (VStr ''entity_id'' \<in> set xs)
      | VStr s \<Rightarrow> Inr (is_substring ''entity_id'' s)
      | _ \<Rightarrow> Inl TypeError)"

text \<open>\<open>data["entity_id"]\<close>, evaluated only after the membership test succeeded.\<close>

definition get_entity_id :: "pyval \<Rightarrow> exn + pyval" where
  "get_entity_id data =
     (case data of
        VDict d \<Rightarrow> (case map_of d ''entity_id'' of Some v \<Rightarrow> Inr v | None \<Rightarrow> Inl KeyError)
      | _ \<Rightarrow> Inl TypeError)"

text \<open>\<open>check_action\<close> on the value found under \<open>entity_id\<close>, which need not be a str. On
  another value, level 0 still returns at once; otherwise the first \<open>fnmatch\<close> call raises
  TypeError, and with both lists empty \<open>entity_id.split\<close> raises AttributeError.\<close>

definition check_action_value ::
  "matcher \<Rightarrow> pyval \<Rightarrow> string \<Rightarrow> SafetyConfig option \<Rightarrow> bool \<Rightarrow> exn + unit" where
  "check_action_value fnmatch entity_id action config force =
     (case entity_id of
        VStr s \<Rightarrow> check_action fnmatch s action config force
      | _ \<Rightarrow>
          (let config = (case config of None \<Rightarrow> SafetyConfig_default | Some c \<Rightarrow> c) in
           if level config = 0 then Inr ()
           else if blocked_entities config \<noteq> [] then Inl TypeError
           else if allowed_entities config \<noteq> [] then Inl TypeError
           else Inl AttributeError))"

text \<open>Lines 379 to 412 of \<open>call\<close>: the payload, from the JSON document if there is one,
  from the key=value tokens otherwise.\<close>

definition call_data ::
  "world \<Rightarrow> string list \<Rightarrow> json_option \<Rightarrow> proc \<Rightarrow> proc \<times> (exn + pyval)" where
  "call_data w params json_data st =
     (case json_data of
        Json v \<Rightarrow> (st, Inr v)
      | BadJson \<Rightarrow> complain (renders w) [InvalidJsonText] st
      | NoJson \<Rightarrow>
          (case parse_tokens (renders w) call_complaint call_parsed_value [] params st of
             (st1, Inl e) \<Rightarrow> (st1, Inl e)
           | (st1, Inr d) \<Rightarrow> (st1, Inr (VDict d))))"

text \<open>Lines 414 to 417 of \<open>call\<close>: the safety check, guarded by
  \<open>"entity_id" in data and not force\<close>.\<close>

definition call_safety_check :: "world \<Rightarrow> string \<Rightarrow> pyval \<Rightarrow> bool \<Rightarrow> exn + unit" where
  "call_safety_check w service_name data force =
     (case has_entity_id data of
        Inl e \<Rightarrow> Inl e
      | Inr present \<Rightarrow>
          if present \<and> \<not> force
          then (case get_entity_id data of
                  Inl e \<Rightarrow> Inl e
                | Inr entity_id \<Rightarrow>
                    check_action_value (matcher_of w) entity_id service_name
                      (Some (safety w)) force)
          else Inr ())"

definition call_body ::
  "world \<Rightarrow> string \<Rightarrow> string list \<Rightarrow> json_option \<Rightarrow> bool \<Rightarrow> proc
     \<Rightarrow> proc \<times> (exn + unit)" where
  "call_body w service params json_data force st =
     (if CHR ''.'' \<notin> set service
      then complain (renders w)
             [ErrorText (''Invalid service format: '' @ service),
              ExpectedFormatText ''domain.service''] st
      else case split1 CHR ''.'' service of
             [domain, service_name] \<Rightarrow>
               (case call_data w params json_data st of
                  (st0, Inl e) \<Rightarrow> (st0, Inl e)
                | (st0, Inr data) \<Rightarrow>
                    (case call_safety_check w service_name data force of
                       Inl e \<Rightarrow> (st0, Inl e)
                     | Inr _ \<Rightarrow>
                         (case call_service (hub_of w) domain service_name (Some data) st0 of
                            (st1, Inl e) \<Rightarrow> (st1, Inl e)
                          | (st1, Inr _) \<Rightarrow>
                              console_print (renders w)
                                (SuccessText (''Service '' @ service @ '' called successfully''))
                                st1)))
           | _ \<Rightarrow> (st, Inl ValueError))"

text \<open>The \<open>except\<close> clauses of \<open>call\<close>: each prints and exits; none of them calls
  \<open>log_action\<close>.\<close>

definition call_except_clauses :: "world \<Rightarrow> proc \<times> (exn + unit) \<Rightarrow> proc \<times> status" where
  "call_except_clauses w r =
     (case r of
        (st, Inr _) \<Rightarrow> (st, Returned)
      | (st, Inl (CriticalActionError x y)) \<Rightarrow>
          exit1 (console_print (renders w) (ExceptionText (CriticalActionError x y)) st)
      | (st, Inl (PermissionError d x)) \<Rightarrow>
          exit1 (console_print (renders w) (ExceptionText (PermissionError d x)) st)
      | (st, Inl ApiError) \<Rightarrow> exit1 (console_print (renders w) ApiErrorText st)
      | (st, Inl (TyperExit n)) \<Rightarrow> (st, Exited n)
      | (st, Inl e) \<Rightarrow> (st, Uncaught e))"

definition call ::
  "world \<Rightarrow> string \<Rightarrow> string list \<Rightarrow> json_option \<Rightarrow> bool \<Rightarrow> proc \<times> status" where
  "call w service params json_data force =
     call_except_clauses w (call_body w service params json_data force start)"

section \<open>The typing of key=value tokens, in the words of the specification\<close>

text \<open>
  Section 4.3 of the specification: a value is typed with the precedence boolean literal
  (\<open>true/yes/on\<close> gives true, \<open>false/no/off\<close> gives false), then integer, then
  floating-point number, then raw string. This definition follows those words; it is what
  the typing of each command is compared with.
\<close>

definition spec_typed_value :: "string \<Rightarrow> pyval" where
  "spec_typed_value v =
     (if lower v \<in> {''true'', ''yes'', ''on''} then VBool True
      else if lower v \<in> {''false'', ''no'', ''off''} then VBool False
      else case py_int v of
             Some n \<Rightarrow> VInt n
           | None \<Rightarrow> (case py_float v of Some x \<Rightarrow> VFloat x | None \<Rightarrow> VStr v))"

text \<open>The two parts of a token \<open>key=value\<close>, as \<open>token.split("=", 1)\<close> gives them.\<close>

definition token_key :: "string \<Rightarrow> string" where
  "token_key token = takeWhile (\<lambda>c. c \<noteq> CHR ''='') token"

definition token_value :: "string \<Rightarrow> string" where
  "token_value token = tl (dropWhile (\<lambda>c. c \<noteq> CHR ''='') token)"

section \<open>The safety policy engine\<close>

subsection \<open>The two list checks and the domain\<close>

lemma is_blocked_iff:
  "is_blocked m entity_id blocked_list
     \<longleftrightarrow> (\<exists>pattern \<in> set blocked_list. m entity_id pattern)"
  by (induction blocked_list) auto

lemma allowed_loop_iff:
  "allowed_loop m entity_id allowed_list
     \<longleftrightarrow> (\<exists>pattern \<in> set allowed_list. m entity_id pattern)"
  by (induction allowed_list) auto

lemma is_allowed_iff:
  "is_allowed m entity_id allowed_list \<longleftrightarrow>
     allowed_list = [] \<or> (\<exists>pattern \<in> set allowed_list. m entity_id pattern)"
  by (simp add: is_allowed_def allowed_loop_iff)

lemma takeWhile_no_separator:
  "sep \<notin> set s \<Longrightarrow> takeWhile (\<lambda>c. c \<noteq> sep) s = s"
  by (induction s) auto

text \<open>\<open>s.split(sep, 1)[0]\<close> never raises: the list always has a first element, the text
  before the first separator.\<close>

lemma split1_item0:
  "item0 (split1 sep s) = Inr (takeWhile (\<lambda>c. c \<noteq> sep) s)"
  by (simp add: item0_def split1_def takeWhile_no_separator)

lemma get_domain_total:
  "get_domain entity_id = Inr (takeWhile (\<lambda>c. c \<noteq> CHR ''.'') entity_id)"
  by (simp add: get_domain_def split1_item0)

lemma confirmation_rules_domain:
  "confirmation_rules entity_id action config force =
     (let domain = takeWhile (\<lambda>c. c \<noteq> CHR ''.'') entity_id in
      if level config \<ge> 3 \<and> domain \<in> set (critical_domains config) \<and> \<not> force
      then Inl (CriticalActionError entity_id action)
      else if level config \<ge> 2
              \<and> action \<in> set [''turn_on'', ''turn_off'', ''toggle'', ''set'']
              \<and> \<not> force
      then Inl (CriticalActionError entity_id action)
      else Inr ())"
  by (simp add: confirmation_rules_def split1_item0 Let_def)

lemma confirmation_rules_forced:
  "confirmation_rules entity_id action config True = Inr ()"
  by (simp add: confirmation_rules_domain)

text \<open>An entity that no blocked pattern matches and that the allowlist lets through reaches
  the confirmation rules.\<close>

lemma check_action_passed_lists:
  assumes "level cfg \<noteq> 0"
    and "\<forall>pattern \<in> set (blocked_entities cfg). \<not> m entity_id pattern"
    and "allowed_entities cfg = []
           \<or> (\<exists>pattern \<in> set (allowed_entities cfg). m entity_id pattern)"
  shows "check_action m entity_id action (Some cfg) force
           = confirmation_rules entity_id action cfg force"
  using assms by (auto simp: check_action_def is_blocked_iff is_allowed_iff)

subsection \<open>C1: the blocklist and the force flag\<close>

text \<open>
  C1 claims that for every policy an entity matching a pattern of \<open>blocked_entities\<close> is
  denied, whatever the force flag. At level 0 this fails: \<open>check_action\<close> returns before it
  reads the blocklist, so a blocked entity is allowed there.
\<close>

theorem blocked_allowed_at_level0_counterexample:
  "wildcard_match ''switch.outdoor_pump'' ''switch.outdoor_*'' \<and>
   check_action wildcard_match ''switch.outdoor_pump'' ''turn_on''
     (Some \<lparr>level = 0, critical_domains = [], blocked_entities = [''switch.outdoor_*''],
            allowed_entities = []\<rparr>) True
   = Inr ()"
  by (simp add: check_action_def)

text \<open>
  C1, as amended: for every policy whose level is not 0 and every force flag, an entity id
  that matches any glob pattern of \<open>blocked_entities\<close> makes \<open>check_action\<close> raise
  PermissionError; the force flag cannot bypass the blocklist.
\<close>

theorem blocked_denied_despite_force:
  assumes "level cfg \<noteq> 0"
    and "\<exists>pattern \<in> set (blocked_entities cfg). m entity_id pattern"
  shows "check_action m entity_id action (Some cfg) force
           = Inl (PermissionError Blocked entity_id)"
  using assms by (simp add: check_action_def is_blocked_iff)

text \<open>The scenario of the specification: level 3, \<open>switch.outdoor_*\<close> blocked, the request
  \<open>(switch.outdoor_pump, turn_on, force = true)\<close> is denied.\<close>

theorem blocked_denied_despite_force_witness:
  "check_action wildcard_match ''switch.outdoor_pump'' ''turn_on''
     (Some \<lparr>level = 3, critical_domains = [], blocked_entities = [''switch.outdoor_*''],
            allowed_entities = []\<rparr>) True
   = Inl (PermissionError Blocked ''switch.outdoor_pump'')"
proof -
  let ?cfg = "\<lparr>level = 3, critical_domains = [],
               blocked_entities = [''switch.outdoor_*''], allowed_entities = []\<rparr>"
  have nonzero: "level ?cfg \<noteq> 0" by simp
  have hit: "\<exists>pattern \<in> set (blocked_entities ?cfg).
               wildcard_match ''switch.outdoor_pump'' pattern"
    by simp
  show ?thesis
    by (rule blocked_denied_despite_force
          [where m = wildcard_match and entity_id = "''switch.outdoor_pump''", OF nonzero hit])
qed

subsection \<open>C5: level 0 switches the policy off\<close>

text \<open>
  C5: for every policy with level 0, \<open>check_action\<close> returns normally (the action is allowed)
  for every entity id, every action name and every force flag, also when the entity matches a
  pattern of \<open>blocked_entities\<close>: the level-0 test comes before the blocklist.
\<close>

theorem level0_allows_everything:
  "level cfg = 0 \<Longrightarrow> check_action m entity_id action (Some cfg) force = Inr ()"
  by (simp add: check_action_def)

theorem level0_allows_everything_witness:
  "is_blocked wildcard_match ''lock.front_door'' [''lock.*''] \<and>
   check_action wildcard_match ''lock.front_door'' ''turn_off''
     (Some \<lparr>level = 0, critical_domains = [''lock''], blocked_entities = [''lock.*''],
            allowed_entities = [''light.*'']\<rparr>) False
   = Inr ()"
proof -
  let ?cfg = "\<lparr>level = 0, critical_domains = [''lock''], blocked_entities = [''lock.*''],
               allowed_entities = [''light.*'']\<rparr>"
  have zero: "level ?cfg = 0" by simp
  have "is_blocked wildcard_match ''lock.front_door'' [''lock.*'']" by simp
  then show ?thesis using level0_allows_everything [OF zero] by simp
qed

subsection \<open>C4: the critical-domain rule of level 3\<close>

text \<open>
  C4: for every policy with level at least 3 and every entity that passes the blocklist and
  the allowlist and whose domain is in \<open>critical_domains\<close>: without force, \<open>check_action\<close>
  raises CriticalActionError (a confirmation is required); with force, the rule neither
  denies nor asks, the evaluation goes on as if the domain were not critical, and its result
  is the normal return. In particular, under the policy with level 3, critical domain
  \<open>lock\<close> and empty lists, the request \<open>(lock.front_door, turn_on)\<close> requires a
  confirmation without force and is allowed with force.
\<close>

theorem critical_domain_rule:
  "(level cfg \<ge> 3
      \<and> (\<forall>pattern \<in> set (blocked_entities cfg). \<not> m entity_id pattern)
      \<and> (allowed_entities cfg = []
           \<or> (\<exists>pattern \<in> set (allowed_entities cfg). m entity_id pattern))
      \<and> get_domain entity_id = Inr domain \<and> domain \<in> set (critical_domains cfg)
    \<longrightarrow> check_action m entity_id action (Some cfg) False
          = Inl (CriticalActionError entity_id action)
      \<and> check_action m entity_id action (Some cfg) True
          = check_action m entity_id action (Some (cfg\<lparr>critical_domains := []\<rparr>)) True
      \<and> check_action m entity_id action (Some cfg) True = Inr ())
   \<and> check_action m ''lock.front_door'' ''turn_on''
        (Some \<lparr>level = 3, critical_domains = [''lock''], blocked_entities = [],
               allowed_entities = []\<rparr>) False
      = Inl (CriticalActionError ''lock.front_door'' ''turn_on'')
   \<and> check_action m ''lock.front_door'' ''turn_on''
        (Some \<lparr>level = 3, critical_domains = [''lock''], blocked_entities = [],
               allowed_entities = []\<rparr>) True
      = Inr ()"
proof (intro conjI impI)
  assume h: "level cfg \<ge> 3
      \<and> (\<forall>pattern \<in> set (blocked_entities cfg). \<not> m entity_id pattern)
      \<and> (allowed_entities cfg = []
           \<or> (\<exists>pattern \<in> set (allowed_entities cfg). m entity_id pattern))
      \<and> get_domain entity_id = Inr domain \<and> domain \<in> set (critical_domains cfg)"
  then have pass: "check_action m entity_id action (Some cfg) force
                     = confirmation_rules entity_id action cfg force" for force
    by (intro check_action_passed_lists) auto
  from h have dom: "takeWhile (\<lambda>c. c \<noteq> CHR ''.'') entity_id \<in> set (critical_domains cfg)"
    by (simp add: get_domain_total)
  from h dom show "check_action m entity_id action (Some cfg) False
          = Inl (CriticalActionError entity_id action)"
    by (simp add: pass confirmation_rules_domain)
  show "check_action m entity_id action (Some cfg) True = Inr ()"
    by (simp add: pass confirmation_rules_forced)
  from h have "check_action m entity_id action (Some (cfg\<lparr>critical_domains := []\<rparr>)) True
          = confirmation_rules entity_id action (cfg\<lparr>critical_domains := []\<rparr>) True"
    by (intro check_action_passed_lists) auto
  then show "check_action m entity_id action (Some cfg) True
          = check_action m entity_id action (Some (cfg\<lparr>critical_domains := []\<rparr>)) True"
    by (simp add: pass confirmation_rules_forced)
next
  show "check_action m ''lock.front_door'' ''turn_on''
        (Some \<lparr>level = 3, critical_domains = [''lock''], blocked_entities = [],
               allowed_entities = []\<rparr>) False
      = Inl (CriticalActionError ''lock.front_door'' ''turn_on'')"
    by (simp add: check_action_def confirmation_rules_domain)
  show "check_action m ''lock.front_door'' ''turn_on''
        (Some \<lparr>level = 3, critical_domains = [''lock''], blocked_entities = [],
               allowed_entities = []\<rparr>) True
      = Inr ()"
    by (simp add: check_action_def confirmation_rules_forced)
qed

text \<open>The rule at work on an action that is not a write action, with both lists in use.\<close>

theorem critical_domain_rule_witness:
  "check_action wildcard_match ''cover.garage'' ''open_cover''
     (Some \<lparr>level = 3, critical_domains = [''lock'', ''cover''],
            blocked_entities = [''cover.skylight''], allowed_entities = [''cover.*'']\<rparr>) False
     = Inl (CriticalActionError ''cover.garage'' ''open_cover'')
   \<and> check_action wildcard_match ''cover.garage'' ''open_cover''
     (Some \<lparr>level = 3, critical_domains = [''lock'', ''cover''],
            blocked_entities = [''cover.skylight''], allowed_entities = [''cover.*'']\<rparr>) True
     = Inr ()"
proof -
  let ?cfg = "\<lparr>level = 3, critical_domains = [''lock'', ''cover''],
               blocked_entities = [''cover.skylight''], allowed_entities = [''cover.*'']\<rparr>"
  have hyps: "level ?cfg \<ge> 3
      \<and> (\<forall>pattern \<in> set (blocked_entities ?cfg). \<not> wildcard_match ''cover.garage'' pattern)
      \<and> (allowed_entities ?cfg = []
           \<or> (\<exists>pattern \<in> set (allowed_entities ?cfg). wildcard_match ''cover.garage'' pattern))
      \<and> get_domain ''cover.garage'' = Inr ''cover'' \<and> ''cover'' \<in> set (critical_domains ?cfg)"
    by (simp add: get_domain_total)
  from critical_domain_rule
         [where cfg = ?cfg and m = wildcard_match and entity_id = "''cover.garage''"
            and domain = "''cover''" and action = "''open_cover''"]
       hyps
  show ?thesis by blast
qed

subsection \<open>C6: the allowlist\<close>

text \<open>
  C6: for every policy with level at least 1 and every entity that no blocked pattern
  matches: if \<open>allowed_entities\<close> is not empty and none of its patterns matches the entity,
  \<open>check_action\<close> raises PermissionError; if at least one pattern matches, the evaluation
  proceeds to the rules that follow (the result is that of \<open>confirmation_rules\<close>); an empty
  \<open>allowed_entities\<close> restricts nothing (every entity proceeds).
\<close>

theorem allowlist_rule:
  assumes "level cfg \<ge> 1"
    and "\<forall>pattern \<in> set (blocked_entities cfg). \<not> m entity_id pattern"
  shows "(allowed_entities cfg \<noteq> []
            \<and> (\<forall>pattern \<in> set (allowed_entities cfg). \<not> m entity_id pattern)
          \<longrightarrow> check_action m entity_id action (Some cfg) force
                = Inl (PermissionError NotInAllowlist entity_id))
       \<and> ((\<exists>pattern \<in> set (allowed_entities cfg). m entity_id pattern)
          \<longrightarrow> check_action m entity_id action (Some cfg) force
                = confirmation_rules entity_id action cfg force)
       \<and> (allowed_entities cfg = []
          \<longrightarrow> check_action m entity_id action (Some cfg) force
                = confirmation_rules entity_id action cfg force)"
proof -
  from assms(1) have nonzero: "level cfg \<noteq> 0" by simp
  have miss: "check_action m entity_id action (Some cfg) force
                = Inl (PermissionError NotInAllowlist entity_id)"
    if "allowed_entities cfg \<noteq> []"
      and "\<forall>pattern \<in> set (allowed_entities cfg). \<not> m entity_id pattern"
    using that nonzero assms(2) by (simp add: check_action_def is_blocked_iff is_allowed_iff)
  have hit: "check_action m entity_id action (Some cfg) force
               = confirmation_rules entity_id action cfg force"
    if "allowed_entities cfg = []
          \<or> (\<exists>pattern \<in> set (allowed_entities cfg). m entity_id pattern)"
    using check_action_passed_lists
            [where m = m and entity_id = entity_id, OF nonzero assms(2) that] .
  from miss hit show ?thesis by blast
qed

text \<open>One run for each part: an allowlist miss, an allowlist hit, an empty allowlist.\<close>

theorem allowlist_rule_witness:
  "check_action wildcard_match ''switch.pump'' ''toggle''
     (Some \<lparr>level = 1, critical_domains = [''lock''], blocked_entities = [''lock.*''],
            allowed_entities = [''light.*'', ''fan.?'']\<rparr>) True
     = Inl (PermissionError NotInAllowlist ''switch.pump'')
   \<and> check_action wildcard_match ''light.kitchen'' ''toggle''
     (Some \<lparr>level = 1, critical_domains = [''lock''], blocked_entities = [''lock.*''],
            allowed_entities = [''light.*'', ''fan.?'']\<rparr>) True
     = Inr ()
   \<and> check_action wildcard_match ''switch.pump'' ''toggle''
     (Some \<lparr>level = 2, critical_domains = [''lock''], blocked_entities = [''lock.*''],
            allowed_entities = []\<rparr>) False
     = Inl (CriticalActionError ''switch.pump'' ''toggle'')"
proof -
  let ?cfg = "\<lparr>level = 1, critical_domains = [''lock''], blocked_entities = [''lock.*''],
               allowed_entities = [''light.*'', ''fan.?'']\<rparr>"
  let ?open = "\<lparr>level = 2, critical_domains = [''lock''], blocked_entities = [''lock.*''],
                allowed_entities = []\<rparr>"
  have lv: "level ?cfg \<ge> 1" and lv': "level ?open \<ge> 1" by simp_all
  have free_switch:
      "\<forall>pattern \<in> set (blocked_entities ?cfg). \<not> wildcard_match ''switch.pump'' pattern"
    and free_light:
      "\<forall>pattern \<in> set (blocked_entities ?cfg). \<not> wildcard_match ''light.kitchen'' pattern"
    and free_open:
      "\<forall>pattern \<in> set (blocked_entities ?open). \<not> wildcard_match ''switch.pump'' pattern"
    by simp_all
  have miss: "allowed_entities ?cfg \<noteq> []
      \<and> (\<forall>pattern \<in> set (allowed_entities ?cfg). \<not> wildcard_match ''switch.pump'' pattern)"
    by simp
  have hit: "\<exists>pattern \<in> set (allowed_entities ?cfg). wildcard_match ''light.kitchen'' pattern"
    by simp
  have none: "allowed_entities ?open = []" by simp
  from allowlist_rule [where m = wildcard_match and entity_id = "''switch.pump''"
                         and action = "''toggle''" and force = True, OF lv free_switch] miss
  have a: "check_action wildcard_match ''switch.pump'' ''toggle'' (Some ?cfg) True
             = Inl (PermissionError NotInAllowlist ''switch.pump'')"
    by blast
  from allowlist_rule [where m = wildcard_match and entity_id = "''light.kitchen''"
                         and action = "''toggle''" and force = True, OF lv free_light] hit
  have "check_action wildcard_match ''light.kitchen'' ''toggle'' (Some ?cfg) True
          = confirmation_rules ''light.kitchen'' ''toggle'' ?cfg True"
    by blast
  then have b: "check_action wildcard_match ''light.kitchen'' ''toggle'' (Some ?cfg) True = Inr ()"
    by (simp add: confirmation_rules_domain)
  from allowlist_rule [where m = wildcard_match and entity_id = "''switch.pump''"
                         and action = "''toggle''" and force = False, OF lv' free_open] none
  have "check_action wildcard_match ''switch.pump'' ''toggle'' (Some ?open) False
          = confirmation_rules ''switch.pump'' ''toggle'' ?open False"
    by blast
  then have c: "check_action wildcard_match ''switch.pump'' ''toggle'' (Some ?open) False
          = Inl (CriticalActionError ''switch.pump'' ''toggle'')"
    by (simp add: confirmation_rules_domain)
  from a b c show ?thesis by blast
qed

subsection \<open>C7: the write rule of level 2\<close>

text \<open>
  C7: for every policy with level at least 2, every action name among \<open>turn_on\<close>,
  \<open>turn_off\<close>, \<open>toggle\<close> and \<open>set\<close>, force = false, and every entity that passes the
  blocklist and the allowlist and whose domain is not in \<open>critical_domains\<close> (or the level is
  below 3), \<open>check_action\<close> raises CriticalActionError: a confirmation is required.
\<close>

theorem write_rule:
  assumes "level cfg \<ge> 2"
    and "action \<in> {''turn_on'', ''turn_off'', ''toggle'', ''set''}"
    and "\<forall>pattern \<in> set (blocked_entities cfg). \<not> m entity_id pattern"
    and "allowed_entities cfg = []
           \<or> (\<exists>pattern \<in> set (allowed_entities cfg). m entity_id pattern)"
    and "get_domain entity_id = Inr domain"
    and "domain \<notin> set (critical_domains cfg) \<or> level cfg < 3"
  shows "check_action m entity_id action (Some cfg) False
           = Inl (CriticalActionError entity_id action)"
proof -
  from assms(1) have "level cfg \<noteq> 0" by simp
  then have "check_action m entity_id action (Some cfg) False
               = confirmation_rules entity_id action cfg False"
    using assms(3,4)
    by (rule check_action_passed_lists [where m = m and entity_id = entity_id])
  with assms(1,2) show ?thesis by (auto simp: confirmation_rules_domain Let_def)
qed

theorem write_rule_witness:
  "check_action wildcard_match ''light.kitchen'' ''set''
     (Some \<lparr>level = 2, critical_domains = [''lock''], blocked_entities = [''light.attic''],
            allowed_entities = [''light.*'']\<rparr>) False
     = Inl (CriticalActionError ''light.kitchen'' ''set'')"
proof -
  let ?cfg = "\<lparr>level = 2, critical_domains = [''lock''], blocked_entities = [''light.attic''],
               allowed_entities = [''light.*'']\<rparr>"
  have "level ?cfg \<ge> 2" by simp
  moreover have "''set'' \<in> {''turn_on'', ''turn_off'', ''toggle'', ''set''}" by simp
  moreover have
    "\<forall>pattern \<in> set (blocked_entities ?cfg). \<not> wildcard_match ''light.kitchen'' pattern"
    by simp
  moreover have "allowed_entities ?cfg = []
      \<or> (\<exists>pattern \<in> set (allowed_entities ?cfg). wildcard_match ''light.kitchen'' pattern)"
    by simp
  moreover have "get_domain ''light.kitchen'' = Inr ''light''"
    by (simp add: get_domain_total)
  moreover have "''light'' \<notin> set (critical_domains ?cfg) \<or> level ?cfg < 3" by simp
  ultimately show ?thesis
    by (rule write_rule [where m = wildcard_match and entity_id = "''light.kitchen''"])
qed

subsection \<open>C8: entity ids without a domain separator\<close>

text \<open>
  C8 claims that \<open>check_action\<close> fails with an input error exactly when the entity id has no
  \<open>.\<close>. It does not: \<open>entity_id.split(".", 1)[0]\<close> is the whole id then, nothing validates
  the id, and the entity goes through the policy like any other. Here an id without
  separator is allowed under the default policy.
\<close>

theorem no_separator_counterexample:
  "CHR ''.'' \<notin> set ''frontdoor'' \<and>
   check_action wildcard_match ''frontdoor'' ''get_state'' (Some SafetyConfig_default) False
     = Inr () \<and>
   get_domain ''frontdoor'' = Inr ''frontdoor''"
  by (simp add: check_action_def SafetyConfig_default_def confirmation_rules_domain
        get_domain_total)

text \<open>
  C8, as amended: \<open>check_action\<close> never fails with an input error, on any entity id, with or
  without \<open>.\<close>: its outcome is always the normal return, a PermissionError or a
  CriticalActionError for the entity; the domain is always found, and an entity id without
  \<open>.\<close> is its own domain.
\<close>

theorem check_action_never_input_error:
  "check_action m entity_id action config force
     \<in> {Inr (), Inl (PermissionError Blocked entity_id),
        Inl (PermissionError NotInAllowlist entity_id),
        Inl (CriticalActionError entity_id action)}
   \<and> (CHR ''.'' \<notin> set entity_id \<longrightarrow> get_domain entity_id = Inr entity_id)
   \<and> (\<exists>domain. get_domain entity_id = Inr domain)"
  by (simp add: check_action_def confirmation_rules_domain get_domain_total
        takeWhile_no_separator Let_def)

theorem check_action_never_input_error_witness:
  "check_action wildcard_match ''frontdoor'' ''turn_on'' None False
     = Inl (CriticalActionError ''frontdoor'' ''turn_on'')
   \<and> get_domain ''frontdoor'' = Inr ''frontdoor''"
proof -
  have nodot: "CHR ''.'' \<notin> set ''frontdoor''" by simp
  from check_action_never_input_error
         [of wildcard_match "''frontdoor''" "''turn_on''" None False] nodot
  have "get_domain ''frontdoor'' = Inr ''frontdoor''" by blast
  moreover have "check_action wildcard_match ''frontdoor'' ''turn_on'' None False
     = Inl (CriticalActionError ''frontdoor'' ''turn_on'')"
    by (simp add: check_action_def SafetyConfig_default_def confirmation_rules_domain)
  ultimately show ?thesis by simp
qed

section \<open>The commands\<close>

subsection \<open>Tokens and payloads\<close>

text \<open>Tokens that all have an \<open>=\<close> are parsed without a word on the console; the dict binds
  each key to the typed value of the last token with that key.\<close>

lemma split1_token:
  "CHR ''='' \<in> set token \<Longrightarrow> split1 CHR ''='' token = [token_key token, token_value token]"
  by (simp add: split1_def token_key_def token_value_def)

lemma parse_tokens_well_formed:
  "\<forall>token \<in> set tokens. CHR ''='' \<in> set token \<Longrightarrow>
   parse_tokens r complaint typing data tokens st
     = (st, Inr (fold (\<lambda>token. AList.update (token_key token) (typing (token_value token)))
                  tokens data))"
  by (induction tokens arbitrary: data) (simp_all add: split1_token)

lemma map_of_fold_update:
  "map_of (fold (\<lambda>t. AList.update (k t) (v t)) ts d)
     = map_of d ++ map_of (rev (map (\<lambda>t. (k t, v t)) ts))"
proof (induction ts arbitrary: d)
  case Nil
  show ?case by simp
next
  case (Cons t ts)
  show ?case
    by (rule ext) (simp add: Cons.IH update_conv' map_add_def split: option.split)
qed


subsection \<open>What on, off, toggle and set do with each decision\<close>

lemmas run_defs = except_clauses_def exit1_def console_print_def log_action_def start_def

lemma switch_denied:
  assumes "check_action (matcher_of w) entity_id service (Some (safety w)) force
             = Inl (PermissionError r x)"
    and "renders w (ExceptionText (PermissionError r x))"
  shows "except_clauses w entity_id service force
           (switch_body w service words entity_id force start)
           = (\<lparr>requests = [],
               audit = [\<lparr>audit_entity = entity_id, audit_action = service,
                         forced = force, allowed = False\<rparr>],
               console = [ExceptionText (PermissionError r x)]\<rparr>, Exited 1)"
  using assms by (simp add: switch_body_def run_defs)

text \<open>The print of a clause comes before its \<open>log_action\<close>: a denial whose message the
  console refuses ends with the MarkupError uncaught and without a record.\<close>

lemma switch_denied_not_rendered:
  assumes "check_action (matcher_of w) entity_id service (Some (safety w)) force
             = Inl (PermissionError r x)"
    and "\<not> renders w (ExceptionText (PermissionError r x))"
  shows "except_clauses w entity_id service force
           (switch_body w service words entity_id force start)
           = (\<lparr>requests = [], audit = [], console = []\<rparr>, Uncaught MarkupError)"
  using assms by (simp add: switch_body_def run_defs)

lemma switch_needs_confirmation:
  assumes "check_action (matcher_of w) entity_id service (Some (safety w)) force
             = Inl (CriticalActionError x y)"
    and "run = except_clauses w entity_id service force
                 (switch_body w service words entity_id force start)"
  shows "requests (fst run) = [] \<and> audit (fst run) = []
           \<and> (renders w (ExceptionText (CriticalActionError x y)) \<longrightarrow> snd run = Exited 1)"
  using assms by (simp add: switch_body_def run_defs)

lemma switch_allowed:
  assumes "check_action (matcher_of w) entity_id service (Some (safety w)) force = Inr ()"
    and "run = except_clauses w entity_id service force
                 (switch_body w service words entity_id force start)"
  shows "\<exists>req. requests (fst run) = [req]
           \<and> audit (fst run)
               = (if hub_of w req
                  then [\<lparr>audit_entity = entity_id, audit_action = service,
                          forced = force, allowed = True\<rparr>]
                  else [])
           \<and> (hub_of w req \<and> renders w (SuccessText (entity_id @ words))
                \<longrightarrow> snd run = Returned)
           \<and> (\<not> hub_of w req \<and> renders w ApiErrorText \<longrightarrow> snd run = Exited 1)"
  using assms
  by (simp add: switch_body_def run_defs call_service_for_entity_def
        split1_item0 call_service_def Let_def truthy_def)

lemma set_cmd_allowed:
  assumes wf: "\<forall>token \<in> set attributes. CHR ''='' \<in> set token"
    and ok: "check_action (matcher_of w) entity_id ''set'' (Some (safety w)) force = Inr ()"
    and data: "data = fold (\<lambda>token. AList.update (token_key token)
                                      (set_parsed_value (token_value token)))
                        attributes [(''entity_id'', VStr entity_id)]"
    and req: "req = POST (''/api/services/'' @ takeWhile (\<lambda>c. c \<noteq> CHR ''.'') entity_id
                            @ ''/turn_on'') (VDict data)"
    and run: "run = set_cmd w entity_id attributes force"
  shows "requests (fst run) = [req]
           \<and> audit (fst run)
               = (if hub_of w req
                  then [\<lparr>audit_entity = entity_id, audit_action = ''set'',
                          forced = force, allowed = True\<rparr>]
                  else [])
           \<and> (hub_of w req \<and> renders w (SuccessText (entity_id @ '' updated''))
                \<longrightarrow> snd run = Returned)
           \<and> (\<not> hub_of w req \<and> renders w ApiErrorText \<longrightarrow> snd run = Exited 1)"
proof -
  have "map_of data ''entity_id'' \<noteq> None"
    unfolding data by (simp add: map_of_fold_update map_add_def split: option.split)
  then have "data \<noteq> []" by auto
  then show ?thesis
    using ok
    by (simp add: run set_cmd_def set_body_def parse_tokens_well_formed [OF wf] split1_item0
          call_service_def truthy_def Let_def run_defs data req)
qed

lemma set_cmd_denied:
  assumes "\<forall>token \<in> set attributes. CHR ''='' \<in> set token"
    and "check_action (matcher_of w) entity_id ''set'' (Some (safety w)) force
           = Inl (PermissionError r x)"
    and "renders w (ExceptionText (PermissionError r x))"
  shows "set_cmd w entity_id attributes force
           = (\<lparr>requests = [],
               audit = [\<lparr>audit_entity = entity_id, audit_action = ''set'',
                         forced = force, allowed = False\<rparr>],
               console = [ExceptionText (PermissionError r x)]\<rparr>, Exited 1)"
  using assms(2,3)
  by (simp add: set_cmd_def set_body_def parse_tokens_well_formed [OF assms(1)] run_defs)

lemma set_cmd_needs_confirmation:
  assumes "\<forall>token \<in> set attributes. CHR ''='' \<in> set token"
    and "check_action (matcher_of w) entity_id ''set'' (Some (safety w)) force
           = Inl (CriticalActionError x y)"
    and "run = set_cmd w entity_id attributes force"
  shows "requests (fst run) = [] \<and> audit (fst run) = []
           \<and> (renders w (ExceptionText (CriticalActionError x y)) \<longrightarrow> snd run = Exited 1)"
  using assms(2,3)
  by (simp add: set_cmd_def set_body_def parse_tokens_well_formed [OF assms(1)] run_defs)

subsection \<open>C9: the typing of key=value tokens in set and in call\<close>

text \<open>A value that lower-cases to \<open>on\<close> or \<open>off\<close> is neither an integer nor a float.\<close>

lemma lower_char_cases:
  assumes "lower_char c = d"
  shows "c = d \<or> c = char_of ((of_char d :: nat) - 32)"
proof (cases "65 \<le> (of_char c :: nat) \<and> (of_char c :: nat) \<le> 90")
  case True
  with assms have "char_of ((of_char c :: nat) + 32) = d" by (simp add: lower_char_def)
  then have "(of_char d :: nat) = (of_char c + 32) mod 256" by auto
  with True have "(of_char d :: nat) - 32 = of_char c" by simp
  then show ?thesis by simp
next
  case False
  with assms show ?thesis by (auto simp: lower_char_def Let_def)
qed

lemma upper_letters:
  "char_of (79::nat) = CHR ''O''" "char_of (78::nat) = CHR ''N''" "char_of (70::nat) = CHR ''F''"
  by code_simp+

lemma lower_on: "lower v = ''on'' \<Longrightarrow> v \<in> {''on'', ''On'', ''oN'', ''ON''}"
proof -
  assume a: "lower v = ''on''"
  then obtain a b where v: "v = [a, b]" and la: "lower_char a = CHR ''o''" and lb: "lower_char b = CHR ''n''"
    by (auto simp: lower_def map_eq_Cons_conv)
  from lower_char_cases [OF la] have "a = CHR ''o'' \<or> a = CHR ''O''" by (simp add: upper_letters)
  moreover from lower_char_cases [OF lb] have "b = CHR ''n'' \<or> b = CHR ''N''" by (simp add: upper_letters)
  ultimately show ?thesis using v by auto
qed

lemma lower_off:
  "lower v = ''off'' \<Longrightarrow>
     v \<in> {''off'', ''ofF'', ''oFf'', ''oFF'', ''Off'', ''OfF'', ''OFf'', ''OFF''}"
proof -
  assume a: "lower v = ''off''"
  then obtain a b c where v: "v = [a, b, c]" and la: "lower_char a = CHR ''o''"
      and lb: "lower_char b = CHR ''f''" and lc: "lower_char c = CHR ''f''"
    by (auto simp: lower_def map_eq_Cons_conv)
  from lower_char_cases [OF la] have "a = CHR ''o'' \<or> a = CHR ''O''" by (simp add: upper_letters)
  moreover from lower_char_cases [OF lb] have "b = CHR ''f'' \<or> b = CHR ''F''" by (simp add: upper_letters)
  moreover from lower_char_cases [OF lc] have "c = CHR ''f'' \<or> c = CHR ''F''" by (simp add: upper_letters)
  ultimately show ?thesis using v by auto
qed

lemma on_not_a_number:
  "v \<in> {''on'', ''On'', ''oN'', ''ON''} \<Longrightarrow> py_int v = None \<and> py_float v = None"
  by (elim insertE emptyE; hypsubst; code_simp)

lemma off_not_a_number:
  "v \<in> {''off'', ''ofF'', ''oFf'', ''oFF'', ''Off'', ''OfF'', ''OFf'', ''OFF''}
     \<Longrightarrow> py_int v = None \<and> py_float v = None"
  by (elim insertE emptyE; hypsubst; code_simp)


lemma on_off_not_a_number:
  assumes "lower v \<in> {''on'', ''off''}"
  shows "py_int v = None \<and> py_float v = None"
proof (cases "lower v = ''on''")
  case True
  then show ?thesis by (intro on_not_a_number lower_on)
next
  case False
  with assms have "lower v = ''off''" by simp
  then show ?thesis by (intro off_not_a_number lower_off)
qed

text \<open>
  C9 claims that \<open>set\<close> and \<open>call\<close> type every key=value token by the same precedence,
  with \<open>true/yes/on\<close> and \<open>false/no/off\<close> as the boolean literals. The literal lists of
  \<open>call\<close> are \<open>("true", "yes")\<close> and \<open>("false", "no")\<close>: under \<open>call\<close> the values \<open>on\<close>
  and \<open>off\<close> stay strings.
\<close>

theorem on_off_typing_counterexample:
  "set_parsed_value ''on'' = VBool True \<and> call_parsed_value ''on'' = VStr ''on'' \<and>
   set_parsed_value ''OFF'' = VBool False \<and> call_parsed_value ''OFF'' = VStr ''OFF'' \<and>
   parse_tokens (\<lambda>text. True) set_complaint set_parsed_value [] [''state=off''] start
     = (start, Inr [(''state'', VBool False)]) \<and>
   parse_tokens (\<lambda>text. True) call_complaint call_parsed_value [] [''state=off''] start
     = (start, Inr [(''state'', VStr ''off'')])"
  by code_simp

text \<open>
  C9, as amended: \<open>set\<close> types every value by the precedence of the specification (boolean
  literal \<open>true/yes/on\<close> or \<open>false/no/off\<close> in any letter case, else integer, else float,
  else the raw string). \<open>call\<close>, when no JSON payload is supplied, types every value the same
  way except the values that lower-case to \<open>on\<close> or \<open>off\<close>, which it keeps as raw strings.
  Under both commands \<open>brightness=128\<close> yields the integer 128, \<open>on=true\<close> the boolean true
  and \<open>name=kitchen\<close> the string \<open>kitchen\<close>.
\<close>

theorem key_value_typing:
  "set_parsed_value v = spec_typed_value v
   \<and> (lower v \<notin> {''on'', ''off''} \<longrightarrow> call_parsed_value v = spec_typed_value v)
   \<and> (lower v \<in> {''on'', ''off''} \<longrightarrow> call_parsed_value v = VStr v)
   \<and> parse_tokens r set_complaint set_parsed_value [(''entity_id'', VStr entity_id)]
        [''brightness=128'', ''on=true'', ''name=kitchen''] st
      = (st, Inr [(''entity_id'', VStr entity_id), (''brightness'', VInt 128),
                  (''on'', VBool True), (''name'', VStr ''kitchen'')])
   \<and> parse_tokens r call_complaint call_parsed_value []
        [''brightness=128'', ''on=true'', ''name=kitchen''] st
      = (st, Inr [(''brightness'', VInt 128), (''on'', VBool True),
                  (''name'', VStr ''kitchen'')])"
proof (intro conjI impI)
  show "set_parsed_value v = spec_typed_value v"
    by (simp add: set_parsed_value_def spec_typed_value_def)
  show "call_parsed_value v = spec_typed_value v" if "lower v \<notin> {''on'', ''off''}"
    using that by (simp add: call_parsed_value_def spec_typed_value_def)
  show "call_parsed_value v = VStr v" if "lower v \<in> {''on'', ''off''}"
    using that on_off_not_a_number [OF that] by (auto simp: call_parsed_value_def)
  have typed_set: "set_parsed_value ''128'' = VInt 128" "set_parsed_value ''true'' = VBool True"
      "set_parsed_value ''kitchen'' = VStr ''kitchen''"
    by code_simp+
  have typed_call: "call_parsed_value ''128'' = VInt 128" "call_parsed_value ''true'' = VBool True"
      "call_parsed_value ''kitchen'' = VStr ''kitchen''"
    by code_simp+
  show "parse_tokens r set_complaint set_parsed_value [(''entity_id'', VStr entity_id)]
        [''brightness=128'', ''on=true'', ''name=kitchen''] st
      = (st, Inr [(''entity_id'', VStr entity_id), (''brightness'', VInt 128),
                  (''on'', VBool True), (''name'', VStr ''kitchen'')])"
    by (simp add: split1_def typed_set)
  show "parse_tokens r call_complaint call_parsed_value []
        [''brightness=128'', ''on=true'', ''name=kitchen''] st
      = (st, Inr [(''brightness'', VInt 128), (''on'', VBool True),
                  (''name'', VStr ''kitchen'')])"
    by (simp add: split1_def typed_call)
qed

text \<open>One value for each rank of the precedence under \<open>call\<close>, and a digit behind the
  separator 0x1C, which neither \<open>int()\<close> nor \<open>float()\<close> accepts: it stays a string under
  both commands.\<close>

theorem key_value_typing_witness:
  "call_parsed_value ''Yes'' = VBool True \<and> call_parsed_value ''-12'' = VInt (- 12)
   \<and> call_parsed_value ''2.5'' = VFloat (FloatLit ''2.5'')
   \<and> call_parsed_value ''Off'' = VStr ''Off''
   \<and> call_parsed_value [CHR 0x1C, CHR ''5''] = VStr [CHR 0x1C, CHR ''5'']
   \<and> set_parsed_value [CHR 0x1C, CHR ''5''] = VStr [CHR 0x1C, CHR ''5'']"
proof -
  have agree: "call_parsed_value v = spec_typed_value v" if "lower v \<notin> {''on'', ''off''}" for v
    using key_value_typing [of v] that by blast
  have same: "set_parsed_value v = spec_typed_value v" for v
    using key_value_typing [of v] by blast
  have stay: "call_parsed_value v = VStr v" if "lower v \<in> {''on'', ''off''}" for v
    using key_value_typing [of v] that by blast
  have l: "lower ''Yes'' \<notin> {''on'', ''off''}" "lower ''-12'' \<notin> {''on'', ''off''}"
     "lower ''2.5'' \<notin> {''on'', ''off''}" "lower ''Off'' \<in> {''on'', ''off''}"
     "lower [CHR 0x1C, CHR ''5''] \<notin> {''on'', ''off''}"
    by code_simp+
  have s: "spec_typed_value ''Yes'' = VBool True" "spec_typed_value ''-12'' = VInt (- 12)"
     "spec_typed_value ''2.5'' = VFloat (FloatLit ''2.5'')"
     "spec_typed_value [CHR 0x1C, CHR ''5''] = VStr [CHR 0x1C, CHR ''5'']"
    by code_simp+
  show ?thesis
    using agree [OF l(1)] agree [OF l(2)] agree [OF l(3)] stay [OF l(4)] agree [OF l(5)]
      same [of "[CHR 0x1C, CHR ''5'']"] s
    by simp
qed

subsection \<open>C2: the safety check of call\<close>

text \<open>With force, \<open>call\<close> skips the safety check for every dict payload; without force and
  with a string under \<open>entity_id\<close>, the check is \<open>check_action\<close> on that entity.\<close>

lemma call_safety_check_forced:
  "call_safety_check w service_name (VDict d) True = Inr ()"
  by (simp add: call_safety_check_def has_entity_id_def)

lemma call_safety_check_unforced:
  "map_of d ''entity_id'' = Some (VStr entity_id) \<Longrightarrow>
   call_safety_check w service_name (VDict d) False
     = check_action (matcher_of w) entity_id service_name (Some (safety w)) False"
  by (simp add: call_safety_check_def has_entity_id_def get_entity_id_def
        check_action_value_def)

text \<open>
  C2 says that \<open>call\<close> runs the safety policy on the entity, with the given force flag,
  whenever the payload has an \<open>entity_id\<close> key, so that the blocklist gates entity-targeted
  calls whatever the force flag. The guard of the check is
  \<open>"entity_id" in data and not force\<close>: with force the policy is never evaluated. Under the
  policy with level 3 that blocks \<open>switch.outdoor_*\<close>, the forced call of
  \<open>switch.turn_on\<close> with \<open>entity_id=switch.outdoor_pump\<close> posts the request, prints its
  success text and returns, although \<open>check_action\<close> denies that very request, as the \<open>on\<close>
  command shows.
\<close>

theorem call_force_skips_safety_check:
  "call \<lparr>matcher_of = wildcard_match,
         safety = \<lparr>level = 3, critical_domains = [''lock''],
                   blocked_entities = [''switch.outdoor_*''], allowed_entities = []\<rparr>,
         hub_of = (\<lambda>req. True), renders = (\<lambda>text. True)\<rparr>
        ''switch.turn_on'' [''entity_id=switch.outdoor_pump''] NoJson True
     = (\<lparr>requests = [POST ''/api/services/switch/turn_on''
                        (VDict [(''entity_id'', VStr ''switch.outdoor_pump'')])],
         audit = [],
         console = [SuccessText ''Service switch.turn_on called successfully'']\<rparr>, Returned)
   \<and> check_action wildcard_match ''switch.outdoor_pump'' ''turn_on''
        (Some \<lparr>level = 3, critical_domains = [''lock''],
               blocked_entities = [''switch.outdoor_*''], allowed_entities = []\<rparr>) True
     = Inl (PermissionError Blocked ''switch.outdoor_pump'')
   \<and> on \<lparr>matcher_of = wildcard_match,
         safety = \<lparr>level = 3, critical_domains = [''lock''],
                   blocked_entities = [''switch.outdoor_*''], allowed_entities = []\<rparr>,
         hub_of = (\<lambda>req. True), renders = (\<lambda>text. True)\<rparr>
        ''switch.outdoor_pump'' True
     = (\<lparr>requests = [],
         audit = [\<lparr>audit_entity = ''switch.outdoor_pump'', audit_action = ''turn_on'',
                   forced = True, allowed = False\<rparr>],
         console = [ExceptionText (PermissionError Blocked ''switch.outdoor_pump'')]\<rparr>,
        Exited 1)"
  by code_simp

subsection \<open>C3: which decisions reach log\_action\<close>

text \<open>
  C3 claims that every decision, every confirmation-required outcome included, results in a
  \<open>log_action\<close> record. The CriticalActionError clause of \<open>on\<close> prints the message and
  exits without calling \<open>log_action\<close>; so does the ApiError clause, when the action was
  allowed and the hub refused the call.
\<close>

theorem confirmation_not_audited_counterexample:
  "check_action wildcard_match ''lock.front_door'' ''turn_on'' (Some SafetyConfig_default) False
     = Inl (CriticalActionError ''lock.front_door'' ''turn_on'')
   \<and> on \<lparr>matcher_of = wildcard_match, safety = SafetyConfig_default,
          hub_of = (\<lambda>req. True), renders = (\<lambda>text. True)\<rparr> ''lock.front_door'' False
     = (\<lparr>requests = [], audit = [],
         console = [ExceptionText (CriticalActionError ''lock.front_door'' ''turn_on'')]\<rparr>,
        Exited 1)
   \<and> check_action wildcard_match ''light.kitchen'' ''turn_on'' (Some SafetyConfig_default) True
     = Inr ()
   \<and> on \<lparr>matcher_of = wildcard_match, safety = SafetyConfig_default,
          hub_of = (\<lambda>req. False), renders = (\<lambda>text. True)\<rparr> ''light.kitchen'' True
     = (\<lparr>requests = [POST ''/api/services/light/turn_on''
                        (VDict [(''entity_id'', VStr ''light.kitchen'')])],
         audit = [], console = [ApiErrorText]\<rparr>, Exited 1)"
  by code_simp

text \<open>
  C3, as amended: for the \<open>on\<close>, \<open>off\<close>, \<open>toggle\<close> and \<open>set\<close> commands (the tokens of
  \<open>set\<close> being well formed), every denial (PermissionError) whose message the console
  prints results in a \<open>log_action\<close> record with the entity, the action, the force flag and
  allowed = false, before the process exits with code 1 and without any request to the hub;
  an allowed action results in a record with allowed = true once its service call has
  returned, and in none when the call fails; a confirmation-required outcome
  (CriticalActionError) leaves no \<open>log_action\<close> record and no request.
\<close>

theorem audit_of_decisions:
  assumes "\<forall>token \<in> set attributes. CHR ''='' \<in> set token"
  shows "\<forall>(run, action, words) \<in> set [(on w entity_id force, ''turn_on'', '' turned on''),
                                       (off w entity_id force, ''turn_off'', '' turned off''),
                                       (toggle w entity_id force, ''toggle'', '' toggled''),
                                       (set_cmd w entity_id attributes force, ''set'',
                                        '' updated'')].
           (case check_action (matcher_of w) entity_id action (Some (safety w)) force of
              Inl (PermissionError r x) \<Rightarrow>
                renders w (ExceptionText (PermissionError r x)) \<longrightarrow>
                run = (\<lparr>requests = [],
                        audit = [\<lparr>audit_entity = entity_id, audit_action = action,
                                  forced = force, allowed = False\<rparr>],
                        console = [ExceptionText (PermissionError r x)]\<rparr>, Exited 1)
            | Inl (CriticalActionError x y) \<Rightarrow>
                requests (fst run) = [] \<and> audit (fst run) = []
                \<and> (renders w (ExceptionText (CriticalActionError x y)) \<longrightarrow> snd run = Exited 1)
            | Inl e \<Rightarrow> True
            | Inr u \<Rightarrow>
                (\<exists>req. requests (fst run) = [req]
                   \<and> audit (fst run)
                       = (if hub_of w req
                          then [\<lparr>audit_entity = entity_id, audit_action = action,
                                  forced = force, allowed = True\<rparr>]
                          else [])
                   \<and> (hub_of w req \<and> renders w (SuccessText (entity_id @ words))
                        \<longrightarrow> snd run = Returned)
                   \<and> (\<not> hub_of w req \<and> renders w ApiErrorText \<longrightarrow> snd run = Exited 1)))"
proof -
  have switch: "case check_action (matcher_of w) entity_id service (Some (safety w)) force of
              Inl (PermissionError r x) \<Rightarrow>
                renders w (ExceptionText (PermissionError r x)) \<longrightarrow>
                run = (\<lparr>requests = [],
                        audit = [\<lparr>audit_entity = entity_id, audit_action = service,
                                  forced = force, allowed = False\<rparr>],
                        console = [ExceptionText (PermissionError r x)]\<rparr>, Exited 1)
            | Inl (CriticalActionError x y) \<Rightarrow>
                requests (fst run) = [] \<and> audit (fst run) = []
                \<and> (renders w (ExceptionText (CriticalActionError x y)) \<longrightarrow> snd run = Exited 1)
            | Inl e \<Rightarrow> True
            | Inr u \<Rightarrow>
                (\<exists>req. requests (fst run) = [req]
                   \<and> audit (fst run)
                       = (if hub_of w req
                          then [\<lparr>audit_entity = entity_id, audit_action = service,
                                  forced = force, allowed = True\<rparr>]
                          else [])
                   \<and> (hub_of w req \<and> renders w (SuccessText (entity_id @ words))
                        \<longrightarrow> snd run = Returned)
                   \<and> (\<not> hub_of w req \<and> renders w ApiErrorText \<longrightarrow> snd run = Exited 1))"
    if run: "run = except_clauses w entity_id service force
                     (switch_body w service words entity_id force start)"
    for run service words
  proof (cases "check_action (matcher_of w) entity_id service (Some (safety w)) force")
    case (Inr u)
    then have "check_action (matcher_of w) entity_id service (Some (safety w)) force = Inr ()"
      by simp
    from switch_allowed [OF this run] Inr show ?thesis by simp
  next
    case (Inl e)
    show ?thesis
    proof (cases e)
      case (PermissionError r x)
      with Inl show ?thesis by (simp add: run switch_denied)
    next
      case (CriticalActionError x y)
      with Inl switch_needs_confirmation [OF _ run, of x y] show ?thesis by simp
    qed (simp_all add: Inl)
  qed
  have set_case: "case check_action (matcher_of w) entity_id ''set'' (Some (safety w)) force of
              Inl (PermissionError r x) \<Rightarrow>
                renders w (ExceptionText (PermissionError r x)) \<longrightarrow>
                run = (\<lparr>requests = [],
                        audit = [\<lparr>audit_entity = entity_id, audit_action = ''set'',
                                  forced = force, allowed = False\<rparr>],
                        console = [ExceptionText (PermissionError r x)]\<rparr>, Exited 1)
            | Inl (CriticalActionError x y) \<Rightarrow>
                requests (fst run) = [] \<and> audit (fst run) = []
                \<and> (renders w (ExceptionText (CriticalActionError x y)) \<longrightarrow> snd run = Exited 1)
            | Inl e \<Rightarrow> True
            | Inr u \<Rightarrow>
                (\<exists>req. requests (fst run) = [req]
                   \<and> audit (fst run)
                       = (if hub_of w req
                          then [\<lparr>audit_entity = entity_id, audit_action = ''set'',
                                  forced = force, allowed = True\<rparr>]
                          else [])
                   \<and> (hub_of w req \<and> renders w (SuccessText (entity_id @ '' updated''))
                        \<longrightarrow> snd run = Returned)
                   \<and> (\<not> hub_of w req \<and> renders w ApiErrorText \<longrightarrow> snd run = Exited 1))"
    if run: "run = set_cmd w entity_id attributes force" for run
  proof (cases "check_action (matcher_of w) entity_id ''set'' (Some (safety w)) force")
    case (Inr u)
    then have "check_action (matcher_of w) entity_id ''set'' (Some (safety w)) force = Inr ()"
      by simp
    from set_cmd_allowed [OF assms this refl refl run] have
      "\<exists>req. requests (fst run) = [req]
                   \<and> audit (fst run)
                       = (if hub_of w req
                          then [\<lparr>audit_entity = entity_id, audit_action = ''set'',
                                  forced = force, allowed = True\<rparr>]
                          else [])
                   \<and> (hub_of w req \<and> renders w (SuccessText (entity_id @ '' updated''))
                        \<longrightarrow> snd run = Returned)
                   \<and> (\<not> hub_of w req \<and> renders w ApiErrorText \<longrightarrow> snd run = Exited 1)"
      by (rule exI)
    with Inr show ?thesis by simp
  next
    case (Inl e)
    show ?thesis
    proof (cases e)
      case (PermissionError r x)
      with Inl show ?thesis by (simp add: run set_cmd_denied [OF assms])
    next
      case (CriticalActionError x y)
      with Inl set_cmd_needs_confirmation [OF assms _ run, of x y] show ?thesis by simp
    qed (simp_all add: Inl)
  qed
  show ?thesis
    unfolding list.set ball_simps split_conv
    using switch [OF on_def] switch [OF off_def] switch [OF toggle_def] set_case [OF refl]
    by simp
qed

theorem audit_of_decisions_witness:
  "off \<lparr>matcher_of = wildcard_match,
         safety = \<lparr>level = 3, critical_domains = [''lock''],
                   blocked_entities = [''switch.outdoor_*''], allowed_entities = []\<rparr>,
         hub_of = (\<lambda>req. True), renders = (\<lambda>text. True)\<rparr> ''switch.outdoor_pump'' True
     = (\<lparr>requests = [],
         audit = [\<lparr>audit_entity = ''switch.outdoor_pump'', audit_action = ''turn_off'',
                   forced = True, allowed = False\<rparr>],
         console = [ExceptionText (PermissionError Blocked ''switch.outdoor_pump'')]\<rparr>,
        Exited 1)
   \<and> audit (fst (set_cmd \<lparr>matcher_of = wildcard_match,
         safety = \<lparr>level = 3, critical_domains = [''lock''],
                   blocked_entities = [''switch.outdoor_*''], allowed_entities = []\<rparr>,
         hub_of = (\<lambda>req. True), renders = (\<lambda>text. True)\<rparr>
           ''lock.front_door'' [''code=1234''] False)) = []
   \<and> snd (set_cmd \<lparr>matcher_of = wildcard_match,
         safety = \<lparr>level = 3, critical_domains = [''lock''],
                   blocked_entities = [''switch.outdoor_*''], allowed_entities = []\<rparr>,
         hub_of = (\<lambda>req. True), renders = (\<lambda>text. True)\<rparr>
           ''lock.front_door'' [''code=1234''] False) = Exited 1"
proof -
  let ?w = "\<lparr>matcher_of = wildcard_match,
         safety = \<lparr>level = 3, critical_domains = [''lock''],
                   blocked_entities = [''switch.outdoor_*''], allowed_entities = []\<rparr>,
         hub_of = (\<lambda>req. True), renders = (\<lambda>text. True)\<rparr>"
  have wf: "\<forall>token \<in> set [''code=1234'']. CHR ''='' \<in> set token" by simp
  have denied: "check_action (matcher_of ?w) ''switch.outdoor_pump'' ''turn_off''
                  (Some (safety ?w)) True
                = Inl (PermissionError Blocked ''switch.outdoor_pump'')"
    by (simp add: check_action_def)
  have asks: "check_action (matcher_of ?w) ''lock.front_door'' ''set''
                  (Some (safety ?w)) False
                = Inl (CriticalActionError ''lock.front_door'' ''set'')"
    by (simp add: check_action_def confirmation_rules_domain)
  from audit_of_decisions [OF wf, of ?w "''switch.outdoor_pump''" True] denied
  have a: "off ?w ''switch.outdoor_pump'' True
     = (\<lparr>requests = [],
         audit = [\<lparr>audit_entity = ''switch.outdoor_pump'', audit_action = ''turn_off'',
                   forced = True, allowed = False\<rparr>],
         console = [ExceptionText (PermissionError Blocked ''switch.outdoor_pump'')]\<rparr>,
        Exited 1)"
    by simp
  from audit_of_decisions [OF wf, of ?w "''lock.front_door''" False] asks
  have b: "audit (fst (set_cmd ?w ''lock.front_door'' [''code=1234''] False)) = []
         \<and> snd (set_cmd ?w ''lock.front_door'' [''code=1234''] False) = Exited 1"
    by simp
  from a b show ?thesis by simp
qed

text \<open>The denial the amended claim leaves out: the id \<open>switch.[/b]\<close> is blocked, the console
  refuses the message that names it, and the command ends before \<open>log_action\<close>.\<close>

lemma denial_with_markup_not_audited:
  "on \<lparr>matcher_of = wildcard_match,
        safety = \<lparr>level = 3, critical_domains = [''lock''],
                  blocked_entities = [''switch.*''], allowed_entities = []\<rparr>,
        hub_of = (\<lambda>req. True),
        renders = (\<lambda>text. text \<noteq> ExceptionText (PermissionError Blocked ''switch.[/b]''))\<rparr>
      ''switch.[/b]'' False
     = (\<lparr>requests = [], audit = [], console = []\<rparr>, Uncaught MarkupError)"
  by code_simp

subsection \<open>C10: set executes the turn\_on service\<close>



end
